theory Spec2Isabelle
  imports Main "HOL-Library.Sublist"
begin

section \<open>The LangGraph + Amazon Bedrock weather example (get-weather.ts)\<close>

text \<open>
  The second half of \<^verbatim>\<open>get-weather.ts\<close> builds a two-node graph: the node
  \<^verbatim>\<open>model\<close> sends the conversation to Bedrock and appends the assistant's
  message, the node \<^verbatim>\<open>tools\<close> runs the tool requests of the last message and
  appends their results, and the conditional edge \<^verbatim>\<open>shouldContinue\<close> routes
  from \<^verbatim>\<open>model\<close> to \<^verbatim>\<open>tools\<close> or to \<^verbatim>\<open>__end__\<close>.

  Asynchronous functions are modelled by their result: a promise that resolves is
  \<open>Inr\<close>, a promise that rejects (an exception thrown in the body) is \<open>Inl\<close>.
  Console output is not modelled.
\<close>

subsection \<open>Data model\<close>

text \<open>
  What the code can throw: \<^verbatim>\<open>new Error(msg)\<close>, the \<^verbatim>\<open>TypeError\<close> of
  JavaScript for a property read on \<^verbatim>\<open>undefined\<close> or a call of something that
  is not a function, whatever \<^verbatim>\<open>bedrockClient.send\<close> rejects with (named
  by a string: a throttling error, a timeout, a malformed response), and the
  \<^verbatim>\<open>GraphRecursionError\<close> with which the graph runtime rejects a run that
  uses up its recursion limit.
\<close>

datatype Error = JsError string | TypeError | GatewayError string | GraphRecursionError

text \<open>
  A tool's input is a JSON document (\<^verbatim>\<open>DocumentType\<close> of the SDK). Numbers are
  kept as integers: the code never computes with them. An object is a list of
  key/value pairs, read with \<open>map_of\<close>.
\<close>

datatype DocumentType =
    DNull
  | DBool bool
  | DNumber int
  | DString string
  | DArray "DocumentType list"
  | DObject "(string \<times> DocumentType) list"

text \<open>The fields of the SDK's blocks may all be \<^verbatim>\<open>undefined\<close>: \<open>None\<close>.\<close>

record ToolUseBlock =
  toolUseId :: "string option"
  name :: "string option"
  input :: "DocumentType option"

datatype ToolResultContentBlock = ResultText string

record ToolResultBlock =
  resultToolUseId :: "string option"
  toolResultContent :: "ToolResultContentBlock list"

datatype ContentBlock =
    TextMember string
  | ToolUseMember ToolUseBlock
  | ToolResultMember ToolResultBlock

record Message =
  role :: string
  content :: "ContentBlock list option"

record GraphState =
  messages :: "Message list"

text \<open>The reducer of the \<^verbatim>\<open>messages\<close> channel: \<^verbatim>\<open>(a, b) => a.concat(b)\<close>.\<close>

definition reducer :: "Message list \<Rightarrow> Message list \<Rightarrow> Message list" where
  "reducer a b = a @ b"

text \<open>A node returns a partial state \<^verbatim>\<open>{ messages: [...] }\<close>, merged by the reducer.\<close>

definition applyUpdate :: "GraphState \<Rightarrow> Message list \<Rightarrow> GraphState" where
  "applyUpdate st upd = st\<lparr>messages := reducer (messages st) upd\<rparr>"

subsection \<open>The search tool\<close>

text \<open>
  \<^verbatim>\<open>String.prototype.toLowerCase\<close> on the letters A to Z; every other character
  is kept as it is.
\<close>

definition toLowerChar :: "char \<Rightarrow> char" where
  "toLowerChar c =
     (if 65 \<le> (of_char c :: nat) \<and> (of_char c :: nat) \<le> 90
      then char_of ((of_char c :: nat) + 32) else c)"

definition toLowerCase :: "string \<Rightarrow> string" where
  "toLowerCase s = map toLowerChar s"

text \<open>\<^verbatim>\<open>s.includes(searchString)\<close>: the search string occurs at some position of s.\<close>

fun includes_str :: "string \<Rightarrow> string \<Rightarrow> bool" where
  "includes_str [] searchString = (searchString = [])"
| "includes_str (c # cs) searchString =
     (prefix searchString (c # cs) \<or> includes_str cs searchString)"

text \<open>The body of \<^verbatim>\<open>searchTool\<close> for an argument whose \<^verbatim>\<open>query\<close> is a string.\<close>

definition searchQuery :: "string \<Rightarrow> string" where
  "searchQuery query =
     (if includes_str (toLowerCase query) ''sf'' \<or>
         includes_str (toLowerCase query) ''san francisco''
      then ''It's 60 degrees and foggy in San Francisco.''
      else ''It's 90 degrees and sunny.'')"

text \<open>
  \<^verbatim>\<open>searchTool(toolUse.input as { query: string })\<close>: the cast checks nothing at
  run time. Destructuring \<^verbatim>\<open>{ query }\<close> of \<^verbatim>\<open>undefined\<close> or
  \<^verbatim>\<open>null\<close> throws a TypeError; of any other value that has no
  \<^verbatim>\<open>query\<close> it gives \<^verbatim>\<open>undefined\<close>, and then
  \<^verbatim>\<open>query.toLowerCase()\<close> throws a TypeError, as it does for every
  \<^verbatim>\<open>query\<close> that is not a string.
\<close>

fun searchTool :: "DocumentType option \<Rightarrow> Error + string" where
  "searchTool (Some (DObject kvs)) =
     (case map_of kvs ''query'' of
        Some (DString query) \<Rightarrow> Inr (searchQuery query)
      | _ \<Rightarrow> Inl TypeError)"
| "searchTool _ = Inl TypeError"

subsection \<open>The model node\<close>

text \<open>The tool schema advertised to Bedrock (\<^verbatim>\<open>bedrockToolConfig\<close>).\<close>

record ToolSpecification =
  specName :: string
  description :: string
  inputSchema :: DocumentType

definition bedrockToolConfig :: "ToolSpecification list" where
  "bedrockToolConfig =
     [\<lparr>specName = ''search'',
       description = ''Use this tool to query the web for weather information.'',
       inputSchema = DObject
         [(''type'', DString ''object''),
          (''properties'', DObject
             [(''query'', DObject
                 [(''type'', DString ''string''),
                  (''description'', DString ''The search query'')])]),
          (''required'', DArray [DString ''query''])]\<rparr>]"

definition BEDROCK_MODEL_ID :: string where
  "BEDROCK_MODEL_ID = ''anthropic.claude-3-5-sonnet-20240620-v1:0''"

record ConverseCommand =
  modelId :: string
  cmdMessages :: "Message list"
  toolConfig :: "ToolSpecification list"

record ConverseOutput =
  message :: "Message option"

record ConverseResponse =
  responseOutput :: "ConverseOutput option"
  stopReason :: "string option"

text \<open>
  \<^verbatim>\<open>bedrockClient.send\<close> is the world outside the program: a parameter
  \<open>send\<close> that answers a command with a response or rejects with an error. Within one
  run no two commands are equal (the history grows with every call), so a function of
  the command can stand for any sequence of answers.
\<close>

type_synonym Gateway = "ConverseCommand \<Rightarrow> Error + ConverseResponse"

text \<open>\<^verbatim>\<open>response.output?.message?.content ?? []\<close>\<close>

definition responseContent :: "ConverseResponse \<Rightarrow> ContentBlock list" where
  "responseContent response =
     (case responseOutput response of
        None \<Rightarrow> []
      | Some out \<Rightarrow>
          (case message out of
             None \<Rightarrow> []
           | Some m \<Rightarrow> (case content m of None \<Rightarrow> [] | Some c \<Rightarrow> c)))"

definition callBedrockModel :: "Gateway \<Rightarrow> GraphState \<Rightarrow> Error + Message list" where
  "callBedrockModel send st =
     (case send \<lparr>modelId = BEDROCK_MODEL_ID, cmdMessages = messages st,
                  toolConfig = bedrockToolConfig\<rparr> of
        Inl e \<Rightarrow> Inl e
      | Inr response \<Rightarrow>
          Inr [\<lparr>role = ''assistant'', content = Some (responseContent response)\<rparr>])"

subsection \<open>The tools node\<close>

text \<open>
  \<^verbatim>\<open>state.messages[state.messages.length - 1]\<close> is \<^verbatim>\<open>undefined\<close> on an
  empty array: \<open>None\<close>.
\<close>

definition lastMessage :: "GraphState \<Rightarrow> Message option" where
  "lastMessage st = (if messages st = [] then None else Some (last (messages st)))"

text \<open>\<^verbatim>\<open>"toolUse" in block\<close>\<close>

fun isToolUse :: "ContentBlock \<Rightarrow> bool" where
  "isToolUse (ToolUseMember _) = True"
| "isToolUse _ = False"

text \<open>
  A template literal prints an \<^verbatim>\<open>undefined\<close> name as the word
  \<^verbatim>\<open>undefined\<close>.
\<close>

definition nameText :: "string option \<Rightarrow> string" where
  "nameText n = (case n of None \<Rightarrow> ''undefined'' | Some s \<Rightarrow> s)"

text \<open>The \<^verbatim>\<open>if (toolUse.name === "search")\<close> of the loop body.\<close>

definition resultContentOf :: "ToolUseBlock \<Rightarrow> Error + string" where
  "resultContentOf toolUse =
     (if name toolUse = Some ''search''
      then searchTool (input toolUse)
      else Inr (''Unknown tool: '' @ nameText (name toolUse)))"

text \<open>
  The \<^verbatim>\<open>for\<close> loop over \<^verbatim>\<open>toolUseBlocks\<close>; \<open>acc\<close> is
  \<^verbatim>\<open>toolResults.content\<close>, to which each round pushes one block. A block
  without \<^verbatim>\<open>toolUse\<close> cannot pass the filter; reading \<^verbatim>\<open>.name\<close> of
  its \<^verbatim>\<open>undefined\<close> member would be a TypeError.
\<close>

fun toolLoop :: "ContentBlock list \<Rightarrow> ContentBlock list \<Rightarrow> Error + ContentBlock list" where
  "toolLoop [] acc = Inr acc"
| "toolLoop (ToolUseMember toolUse # rest) acc =
     (case resultContentOf toolUse of
        Inl e \<Rightarrow> Inl e
      | Inr resultContent \<Rightarrow>
          toolLoop rest
            (acc @ [ToolResultMember
                      \<lparr>resultToolUseId = toolUseId toolUse,
                       toolResultContent = [ResultText resultContent]\<rparr>]))"
| "toolLoop (_ # rest) acc = Inl TypeError"

definition toolUseBlocksOf :: "Message \<Rightarrow> ContentBlock list" where
  "toolUseBlocksOf lm = (case content lm of None \<Rightarrow> [] | Some c \<Rightarrow> filter isToolUse c)"

definition executeTools :: "GraphState \<Rightarrow> Error + Message list" where
  "executeTools st =
     (case lastMessage st of
        None \<Rightarrow> Inl TypeError
      | Some lm \<Rightarrow>
          (if length (toolUseBlocksOf lm) = 0
           then Inl (JsError ''No tool calls found in message.'')
           else (case toolLoop (toolUseBlocksOf lm) [] of
                   Inl e \<Rightarrow> Inl e
                 | Inr c \<Rightarrow> Inr [\<lparr>role = ''user'', content = Some c\<rparr>])))"

subsection \<open>The graph\<close>

text \<open>
  Where a run stands: about to execute the node \<^verbatim>\<open>model\<close> or
  \<^verbatim>\<open>tools\<close>, at \<^verbatim>\<open>__end__\<close>, or rejected with the error a node threw.
\<close>

datatype Position = Model | Tools | End | Rejected Error

text \<open>The conditional edge. \<^verbatim>\<open>undefined\<close> (no content) is falsy.\<close>

definition shouldContinue :: "GraphState \<Rightarrow> Error + Position" where
  "shouldContinue st =
     (case lastMessage st of
        None \<Rightarrow> Inl TypeError
      | Some lm \<Rightarrow>
          (let hasToolUse = (case content lm of None \<Rightarrow> False | Some c \<Rightarrow> list_ex isToolUse c)
           in if hasToolUse then Inr Tools else Inr End))"

text \<open>
  A run: its position, the graph state, and the number of calls of
  \<^verbatim>\<open>bedrockClient.send\<close> made so far (a ghost counter: the node
  \<^verbatim>\<open>model\<close> calls it once, the node \<^verbatim>\<open>tools\<close> never).
\<close>

record Run =
  position :: Position
  state :: GraphState
  sends :: nat

text \<open>
  One step of the compiled graph: the node at the position runs, its update is merged
  by the reducer, and the outgoing edge gives the next position
  (\<^verbatim>\<open>model\<close>: the conditional edge; \<^verbatim>\<open>tools\<close>: the edge to
  \<^verbatim>\<open>model\<close>). An exception in a node or in the edge function rejects the run.
\<close>

definition graphStep :: "Gateway \<Rightarrow> Run \<Rightarrow> Run" where
  "graphStep send r =
     (case position r of
        Model \<Rightarrow>
          (case callBedrockModel send (state r) of
             Inl e \<Rightarrow> r\<lparr>position := Rejected e, sends := sends r + 1\<rparr>
           | Inr upd \<Rightarrow>
               (let st' = applyUpdate (state r) upd in
                case shouldContinue st' of
                  Inl e \<Rightarrow> \<lparr>position = Rejected e, state = st', sends = sends r + 1\<rparr>
                | Inr p \<Rightarrow> \<lparr>position = p, state = st', sends = sends r + 1\<rparr>))
      | Tools \<Rightarrow>
          (case executeTools (state r) of
             Inl e \<Rightarrow> r\<lparr>position := Rejected e\<rparr>
           | Inr upd \<Rightarrow> r\<lparr>position := Model, state := applyUpdate (state r) upd\<rparr>)
      | End \<Rightarrow> r
      | Rejected e \<Rightarrow> r)"

text \<open>The step iterated n times, whatever the runtime allows: the sequence of steps.\<close>

fun runSteps :: "Gateway \<Rightarrow> nat \<Rightarrow> Run \<Rightarrow> Run" where
  "runSteps send 0 r = r"
| "runSteps send (Suc n) r = runSteps send n (graphStep send r)"

text \<open>
  \<^verbatim>\<open>bedrockWorkflow.invoke({ messages: input })\<close>: the channel starts from its
  default \<^verbatim>\<open>[]\<close>, the input is merged by the reducer, and the edge from
  \<^verbatim>\<open>__start__\<close> leads to \<^verbatim>\<open>model\<close>.
\<close>

definition start :: "Message list \<Rightarrow> Run" where
  "start inputMessages =
     \<lparr>position = Model, state = applyUpdate \<lparr>messages = []\<rparr> inputMessages, sends = 0\<rparr>"

text \<open>
  The graph has no counter of its own, but the runtime that executes the compiled graph
  (LangGraph, not part of the source file) bounds every run by its
  \<^verbatim>\<open>recursionLimit\<close>, counted in node executions. Before each of them it first
  checks the limit and only then whether a node is left to run. So with a limit of n
  the run executes at most n nodes; it resolves with the state when it has come to
  \<^verbatim>\<open>__end__\<close> in fewer than n; an error thrown by a node rejects it with that
  error; and otherwise, also when the n-th node has just led to \<^verbatim>\<open>__end__\<close>,
  it is rejected with \<^verbatim>\<open>GraphRecursionError\<close>. \<open>runGraph\<close> gives the run
  at its end, \<open>n\<close> being the node executions still allowed.
\<close>

fun runGraph :: "Gateway \<Rightarrow> nat \<Rightarrow> Run \<Rightarrow> Run" where
  "runGraph send 0 r =
     (case position r of
        Rejected e \<Rightarrow> r
      | _ \<Rightarrow> r\<lparr>position := Rejected GraphRecursionError\<rparr>)"
| "runGraph send (Suc n) r =
     (case position r of
        End \<Rightarrow> r
      | Rejected e \<Rightarrow> r
      | _ \<Rightarrow> runGraph send n (graphStep send r))"

text \<open>
  \<^verbatim>\<open>bedrockWorkflow.invoke(input, { recursionLimit })\<close>: the promise resolves
  with the final state or rejects with an error. The source passes no configuration,
  so its run has the runtime's default limit of 25.
\<close>

definition invoke :: "Gateway \<Rightarrow> nat \<Rightarrow> Message list \<Rightarrow> Error + GraphState" where
  "invoke send recursionLimit inputMessages =
     (let r = runGraph send recursionLimit (start inputMessages) in
      case position r of
        End \<Rightarrow> Inr (state r)
      | Rejected e \<Rightarrow> Inl e
      | _ \<Rightarrow> Inl GraphRecursionError)"

definition defaultRecursionLimit :: nat where
  "defaultRecursionLimit = 25"

subsection \<open>Vocabulary of the properties\<close>

text \<open>The tool requests of a content list, in order, without their tag.\<close>

fun toolUsesIn :: "ContentBlock list \<Rightarrow> ToolUseBlock list" where
  "toolUsesIn [] = []"
| "toolUsesIn (ToolUseMember toolUse # bs) = toolUse # toolUsesIn bs"
| "toolUsesIn (_ # bs) = toolUsesIn bs"

text \<open>The tool requests of the most recent message of a state.\<close>

definition requests :: "GraphState \<Rightarrow> ToolUseBlock list" where
  "requests st =
     (case lastMessage st of
        None \<Rightarrow> []
      | Some lm \<Rightarrow> (case content lm of None \<Rightarrow> [] | Some c \<Rightarrow> toolUsesIn c))"

text \<open>
  A request is well formed when its input fits the schema of the tool it names: for
  \<^verbatim>\<open>search\<close>, an object whose \<^verbatim>\<open>query\<close> is a string. A request for any
  other name is answered without a look at its input.
\<close>

fun hasStringQuery :: "DocumentType option \<Rightarrow> bool" where
  "hasStringQuery (Some (DObject kvs)) =
     (case map_of kvs ''query'' of Some (DString _) \<Rightarrow> True | _ \<Rightarrow> False)"
| "hasStringQuery _ = False"

definition wellFormedRequest :: "ToolUseBlock \<Rightarrow> bool" where
  "wellFormedRequest toolUse =
     (if name toolUse = Some ''search'' then hasStringQuery (input toolUse) else True)"

text \<open>The result block that carries a text for a request: same id, one text.\<close>

definition resultBlockFor :: "ToolUseBlock \<Rightarrow> string \<Rightarrow> ContentBlock" where
  "resultBlockFor toolUse t =
     ToolResultMember
       \<lparr>resultToolUseId = toolUseId toolUse, toolResultContent = [ResultText t]\<rparr>"

definition answers :: "ToolUseBlock \<Rightarrow> ContentBlock \<Rightarrow> bool" where
  "answers toolUse b =
     (case resultContentOf toolUse of
        Inl _ \<Rightarrow> False
      | Inr t \<Rightarrow> b = resultBlockFor toolUse t)"

text \<open>\<^verbatim>\<open>response.output?.message\<close>\<close>

definition outputMessage :: "ConverseResponse \<Rightarrow> Message option" where
  "outputMessage response =
     (case responseOutput response of None \<Rightarrow> None | Some out \<Rightarrow> message out)"

text \<open>The command that the node \<^verbatim>\<open>model\<close> sends in a state.\<close>

definition commandOf :: "GraphState \<Rightarrow> ConverseCommand" where
  "commandOf st =
     \<lparr>modelId = BEDROCK_MODEL_ID, cmdMessages = messages st,
      toolConfig = bedrockToolConfig\<rparr>"

subsection \<open>Example inputs\<close>

text \<open>The input of the run at the end of the source file.\<close>

definition exampleInput :: "Message list" where
  "exampleInput =
     [\<lparr>role = ''user'',
       content = Some [TextMember ''What is the weather in Los Angeles?'']\<rparr>]"

definition searchRequest :: "string \<Rightarrow> string \<Rightarrow> ContentBlock" where
  "searchRequest i q =
     ToolUseMember
       \<lparr>toolUseId = Some i, name = Some ''search'',
        input = Some (DObject [(''query'', DString q)])\<rparr>"

definition assistantTurn :: "ContentBlock list \<Rightarrow> ConverseResponse" where
  "assistantTurn c =
     \<lparr>responseOutput = Some \<lparr>message = Some \<lparr>role = ''assistant'', content = Some c\<rparr>\<rparr>,
      stopReason = None\<rparr>"

text \<open>A gateway that asks for the search tool on every call.\<close>

definition alwaysSearch :: Gateway where
  "alwaysSearch cmd =
     Inr (assistantTurn [TextMember ''Let me look.'', searchRequest ''t1'' ''weather in SF''])"

text \<open>A gateway that answers with text only.\<close>

definition textOnly :: Gateway where
  "textOnly cmd = Inr (assistantTurn [TextMember ''It's sunny.''])"

text \<open>
  A gateway that asks for the search tool as long as the history has fewer than 25
  messages, and then answers with text only. From \<open>exampleInput\<close> (one message, two
  more per cycle) the text is its 13th answer.
\<close>

definition searchThenText :: Gateway where
  "searchThenText cmd =
     (if length (cmdMessages cmd) < 25
      then Inr (assistantTurn [searchRequest ''t1'' ''weather in SF''])
      else Inr (assistantTurn [TextMember ''It's sunny.'']))"

text \<open>The same, but the 13th response has no output.\<close>

definition searchThenNoOutput :: Gateway where
  "searchThenNoOutput cmd =
     (if length (cmdMessages cmd) < 25
      then Inr (assistantTurn [searchRequest ''t1'' ''weather in SF''])
      else Inr \<lparr>responseOutput = None, stopReason = None\<rparr>)"

text \<open>A gateway whose response has no output.\<close>

definition noOutput :: Gateway where
  "noOutput cmd = Inr \<lparr>responseOutput = None, stopReason = None\<rparr>"

text \<open>A gateway that rejects every call.\<close>

definition throttled :: Gateway where
  "throttled cmd = Inl (GatewayError ''ThrottlingException'')"

text \<open>
  A state whose last message asks for two tools by name: \<^verbatim>\<open>lookup\<close>, which does
  not exist, and \<^verbatim>\<open>search\<close>.
\<close>

definition twoRequests :: GraphState where
  "twoRequests =
     \<lparr>messages = exampleInput @
        [\<lparr>role = ''assistant'',
          content = Some
            [TextMember ''One moment.'',
             ToolUseMember \<lparr>toolUseId = Some ''a'', name = Some ''lookup'', input = None\<rparr>,
             searchRequest ''b'' ''Weather in LA'']\<rparr>]\<rparr>"

text \<open>What the tool-execution step answers in that state.\<close>

definition twoResults :: Message where
  "twoResults =
     \<lparr>role = ''user'',
      content = Some
        [ToolResultMember
           \<lparr>resultToolUseId = Some ''a'',
            toolResultContent = [ResultText ''Unknown tool: lookup'']\<rparr>,
         ToolResultMember
           \<lparr>resultToolUseId = Some ''b'',
            toolResultContent = [ResultText ''It's 90 degrees and sunny.'']\<rparr>]\<rparr>"

text \<open>
  A turn that asks for \<^verbatim>\<open>lookup\<close> and for \<^verbatim>\<open>search\<close>, the latter with
  an input that has no \<^verbatim>\<open>query\<close>; a gateway that answers with it; the state
  after that answer.
\<close>

definition malformedTurn :: "ContentBlock list" where
  "malformedTurn =
     [ToolUseMember \<lparr>toolUseId = Some ''a'', name = Some ''lookup'', input = None\<rparr>,
      ToolUseMember
        \<lparr>toolUseId = Some ''b'', name = Some ''search'', input = Some (DObject [])\<rparr>]"

definition malformedGateway :: Gateway where
  "malformedGateway cmd = Inr (assistantTurn malformedTurn)"

definition malformedSearch :: GraphState where
  "malformedSearch =
     \<lparr>messages = exampleInput @ [\<lparr>role = ''assistant'', content = Some malformedTurn\<rparr>]\<rparr>"

text \<open>The state after one answer of \<open>alwaysSearch\<close>, and the result of its request.\<close>

definition searchState :: GraphState where
  "searchState =
     \<lparr>messages = exampleInput @
        [\<lparr>role = ''assistant'',
          content = Some [TextMember ''Let me look.'', searchRequest ''t1'' ''weather in SF'']\<rparr>]\<rparr>"

definition searchResults :: Message where
  "searchResults =
     \<lparr>role = ''user'',
      content = Some
        [ToolResultMember
           \<lparr>resultToolUseId = Some ''t1'',
            toolResultContent =
              [ResultText ''It's 60 degrees and foggy in San Francisco.'']\<rparr>]\<rparr>"

text \<open>A state whose last message is text only.\<close>

definition textState :: GraphState where
  "textState =
     \<lparr>messages = exampleInput @
        [\<lparr>role = ''assistant'', content = Some [TextMember ''It's sunny.'']\<rparr>]\<rparr>"

section \<open>Properties\<close>

subsection \<open>Auxiliary facts\<close>

lemma includes_str_sublist: "includes_str s t = sublist t s"
  by (induction s) (auto simp: sublist_Cons_right)

lemma filter_isToolUse: "filter isToolUse c = map ToolUseMember (toolUsesIn c)"
  by (induction c rule: toolUsesIn.induct) auto

lemma list_ex_isToolUse: "list_ex isToolUse c \<longleftrightarrow> toolUsesIn c \<noteq> []"
  by (induction c rule: toolUsesIn.induct) auto

lemma toolUseBlocksOf_requests:
  "lastMessage st = Some lm \<Longrightarrow> toolUseBlocksOf lm = map ToolUseMember (requests st)"
  by (simp add: toolUseBlocksOf_def requests_def filter_isToolUse split: option.splits)

lemma searchTool_hasStringQuery:
  "hasStringQuery i \<longleftrightarrow> (\<exists>t. searchTool i = Inr t)"
  by (induction i rule: hasStringQuery.induct)
     (auto split: option.splits DocumentType.splits)

lemma wellFormed_resultContentOf:
  "wellFormedRequest toolUse \<longleftrightarrow> (\<exists>t. resultContentOf toolUse = Inr t)"
  by (simp add: wellFormedRequest_def resultContentOf_def searchTool_hasStringQuery)

lemma answers_iff:
  "answers toolUse b \<longleftrightarrow>
     (\<exists>t. resultContentOf toolUse = Inr t \<and> b = resultBlockFor toolUse t)"
  by (simp add: answers_def split: sum.splits)

text \<open>The loop returns exactly the accumulator followed by one answer per request.\<close>

lemma toolLoop_Inr:
  "toolLoop (map ToolUseMember tus) acc = Inr c \<longleftrightarrow>
     (\<exists>rs. c = acc @ rs \<and> list_all2 answers tus rs)"
proof (induction tus arbitrary: acc)
  case Nil
  show ?case by auto
next
  case (Cons tu tus)
  show ?case
  proof (cases "resultContentOf tu")
    case (Inl e)
    then show ?thesis by (auto simp: answers_iff list_all2_Cons1)
  next
    case (Inr t)
    have "toolLoop (map ToolUseMember (tu # tus)) acc =
          toolLoop (map ToolUseMember tus) (acc @ [resultBlockFor tu t])"
      using Inr by (simp add: resultBlockFor_def)
    then show ?thesis
      using Inr by (auto simp: Cons.IH answers_iff list_all2_Cons1)
  qed
qed

lemma toolLoop_total:
  "list_all wellFormedRequest tus \<Longrightarrow> \<exists>c. toolLoop (map ToolUseMember tus) acc = Inr c"
  by (induction tus arbitrary: acc) (auto simp: wellFormed_resultContentOf)

lemma executeTools_Inr:
  "executeTools st = Inr upd \<longleftrightarrow>
     (requests st \<noteq> [] \<and>
      (\<exists>rs. upd = [\<lparr>role = ''user'', content = Some rs\<rparr>] \<and>
            list_all2 answers (requests st) rs))"
proof (cases "lastMessage st")
  case None
  then show ?thesis by (simp add: executeTools_def requests_def)
next
  case (Some lm)
  then have "executeTools st = Inr upd \<longleftrightarrow>
     (requests st \<noteq> [] \<and>
      (\<exists>rs. toolLoop (map ToolUseMember (requests st)) [] = Inr rs \<and>
            upd = [\<lparr>role = ''user'', content = Some rs\<rparr>]))"
    by (auto simp: executeTools_def toolUseBlocksOf_requests split: sum.splits)
  then show ?thesis
    by (auto simp: toolLoop_Inr)
qed

lemma executeTools_total:
  assumes "requests st \<noteq> []" and "list_all wellFormedRequest (requests st)"
  shows "\<exists>upd. executeTools st = Inr upd"
proof -
  from assms(1) obtain lm where lm: "lastMessage st = Some lm"
    by (auto simp: requests_def split: option.splits)
  from toolLoop_total[OF assms(2)]
  obtain c where "toolLoop (map ToolUseMember (requests st)) [] = Inr c" by blast
  with assms(1) lm show ?thesis
    by (simp add: executeTools_def toolUseBlocksOf_requests)
qed

lemma requests_twoRequests:
  "requests twoRequests =
     [\<lparr>toolUseId = Some ''a'', name = Some ''lookup'', input = None\<rparr>,
      \<lparr>toolUseId = Some ''b'', name = Some ''search'',
       input = Some (DObject [(''query'', DString ''Weather in LA'')])\<rparr>]"
  by (simp add: requests_def twoRequests_def lastMessage_def searchRequest_def)

subsection \<open>The search tool\<close>

text \<open>
  C10. For every query string, the search tool returns the San Francisco sentence
  exactly when the lowercased query contains \<^verbatim>\<open>sf\<close> or
  \<^verbatim>\<open>san francisco\<close> as a substring, and the sunny sentence otherwise.
  (\<open>sublist\<close> is the library's notion of a contiguous substring.)
\<close>

theorem searchTool_foggy_iff:
  "searchTool (Some (DObject [(''query'', DString query)])) =
     Inr (if sublist ''sf'' (toLowerCase query) \<or>
             sublist ''san francisco'' (toLowerCase query)
          then ''It's 60 degrees and foggy in San Francisco.''
          else ''It's 90 degrees and sunny.'')"
  by (simp add: searchQuery_def includes_str_sublist)

theorem searchTool_foggy_iff_witness:
  "searchTool (Some (DObject [(''query'', DString ''Weather in SF?'')])) =
     Inr ''It's 60 degrees and foggy in San Francisco.'' \<and>
   searchTool (Some (DObject [(''query'', DString ''What is the weather in Los Angeles?'')])) =
     Inr ''It's 90 degrees and sunny.''"
proof -
  have a: "sublist ''sf'' (toLowerCase ''Weather in SF?'')"
    by code_simp
  have b: "\<not> sublist ''sf'' (toLowerCase ''What is the weather in Los Angeles?'')"
    by code_simp
  have c: "\<not> sublist ''san francisco'' (toLowerCase ''What is the weather in Los Angeles?'')"
    by code_simp
  show ?thesis
    using searchTool_foggy_iff [of "''Weather in SF?''"]
          searchTool_foggy_iff [of "''What is the weather in Los Angeles?''"] a b c
    by simp
qed

subsection \<open>The tools node\<close>

text \<open>
  C1. Whenever the tool-execution step produces a message, that message holds exactly
  one result block per tool request of the last message, in the order of the requests,
  each carrying the id of its request and the text computed for it; and for every
  non-empty sequence of well-formed requests the step does produce a message.
\<close>

theorem executeTools_one_result_per_request:
  "(executeTools st = Inr upd \<longrightarrow>
      (\<exists>rs. upd = [\<lparr>role = ''user'', content = Some rs\<rparr>] \<and>
            length rs = length (requests st) \<and>
            (\<forall>i < length (requests st).
               \<exists>t. resultContentOf (requests st ! i) = Inr t \<and>
                   rs ! i = ToolResultMember
                     \<lparr>resultToolUseId = toolUseId (requests st ! i),
                      toolResultContent = [ResultText t]\<rparr>))) \<and>
   (requests st \<noteq> [] \<and> list_all wellFormedRequest (requests st) \<longrightarrow>
      (\<exists>upd'. executeTools st = Inr upd'))"
proof (intro conjI impI)
  assume "executeTools st = Inr upd"
  then obtain rs where upd: "upd = [\<lparr>role = ''user'', content = Some rs\<rparr>]"
    and rs: "list_all2 answers (requests st) rs"
    by (auto simp: executeTools_Inr)
  from rs have len: "length rs = length (requests st)"
    by (simp add: list_all2_lengthD)
  have "\<exists>t. resultContentOf (requests st ! i) = Inr t \<and>
            rs ! i = ToolResultMember
              \<lparr>resultToolUseId = toolUseId (requests st ! i),
               toolResultContent = [ResultText t]\<rparr>"
    if "i < length (requests st)" for i
    using list_all2_nthD [OF rs that]
    by (simp add: answers_iff resultBlockFor_def)
  with upd len
  show "\<exists>rs. upd = [\<lparr>role = ''user'', content = Some rs\<rparr>] \<and>
            length rs = length (requests st) \<and>
            (\<forall>i < length (requests st).
               \<exists>t. resultContentOf (requests st ! i) = Inr t \<and>
                   rs ! i = ToolResultMember
                     \<lparr>resultToolUseId = toolUseId (requests st ! i),
                      toolResultContent = [ResultText t]\<rparr>)"
    by blast
next
  assume "requests st \<noteq> [] \<and> list_all wellFormedRequest (requests st)"
  then show "\<exists>upd'. executeTools st = Inr upd'"
    by (simp add: executeTools_total)
qed

theorem executeTools_one_result_per_request_witness:
  "requests twoRequests \<noteq> [] \<and>
   list_all wellFormedRequest (requests twoRequests) \<and>
   executeTools twoRequests = Inr [twoResults] \<and>
   (\<exists>rs. [twoResults] = [\<lparr>role = ''user'', content = Some rs\<rparr>] \<and>
         length rs = length (requests twoRequests) \<and>
         (\<forall>i < length (requests twoRequests).
            \<exists>t. resultContentOf (requests twoRequests ! i) = Inr t \<and>
                rs ! i = ToolResultMember
                  \<lparr>resultToolUseId = toolUseId (requests twoRequests ! i),
                   toolResultContent = [ResultText t]\<rparr>))"
proof -
  have ne: "requests twoRequests \<noteq> []"
    by (simp add: requests_twoRequests)
  have wf: "list_all wellFormedRequest (requests twoRequests)"
    by (simp add: requests_twoRequests wellFormedRequest_def)
  have ex: "executeTools twoRequests = Inr [twoResults]"
    by code_simp
  from executeTools_one_result_per_request [of twoRequests "[twoResults]"] ne wf ex
  show ?thesis by blast
qed

subsection \<open>Auxiliary facts about the graph\<close>

lemma graphStep_End: "position r = End \<Longrightarrow> graphStep send r = r"
  by (simp add: graphStep_def)

lemma graphStep_Rejected: "position r = Rejected e \<Longrightarrow> graphStep send r = r"
  by (simp add: graphStep_def)

lemma runSteps_End: "position r = End \<Longrightarrow> runSteps send n r = r"
  by (induction n) (simp_all add: graphStep_End)

lemma runSteps_Rejected: "position r = Rejected e \<Longrightarrow> runSteps send n r = r"
  by (induction n) (simp_all add: graphStep_Rejected)

lemma runSteps_add: "runSteps send (a + b) r = runSteps send b (runSteps send a r)"
  by (induction a arbitrary: r) simp_all

lemma lastMessage_applyUpdate:
  "lastMessage (applyUpdate st [m]) = Some m"
  by (simp add: lastMessage_def applyUpdate_def reducer_def)

lemma messages_applyUpdate: "messages (applyUpdate st upd) = messages st @ upd"
  by (simp add: applyUpdate_def reducer_def)

lemma shouldContinue_applyUpdate:
  "shouldContinue (applyUpdate st [\<lparr>role = rl, content = Some c\<rparr>]) =
     Inr (if toolUsesIn c = [] then End else Tools)"
  by (simp add: shouldContinue_def lastMessage_applyUpdate list_ex_isToolUse)

lemma callBedrockModel_commandOf:
  "callBedrockModel send st =
     (case send (commandOf st) of
        Inl e \<Rightarrow> Inl e
      | Inr response \<Rightarrow>
          Inr [\<lparr>role = ''assistant'', content = Some (responseContent response)\<rparr>])"
  by (simp add: callBedrockModel_def commandOf_def)

lemma graphStep_Model_Inr:
  assumes "position r = Model" and "send (commandOf (state r)) = Inr response"
  shows "graphStep send r =
     \<lparr>position = (if toolUsesIn (responseContent response) = [] then End else Tools),
      state = applyUpdate (state r)
                [\<lparr>role = ''assistant'', content = Some (responseContent response)\<rparr>],
      sends = sends r + 1\<rparr>"
  using assms
  by (simp add: graphStep_def callBedrockModel_commandOf shouldContinue_applyUpdate Let_def)

lemma graphStep_Model_Inl:
  assumes "position r = Model" and "send (commandOf (state r)) = Inl e"
  shows "graphStep send r = r\<lparr>position := Rejected e, sends := sends r + 1\<rparr>"
  using assms by (simp add: graphStep_def callBedrockModel_commandOf)

lemma graphStep_Tools:
  assumes "position r = Tools"
  shows "graphStep send r =
     (case executeTools (state r) of
        Inl e \<Rightarrow> r\<lparr>position := Rejected e\<rparr>
      | Inr upd \<Rightarrow> r\<lparr>position := Model, state := applyUpdate (state r) upd\<rparr>)"
  using assms by (simp add: graphStep_def)

lemma runSteps_Suc_end: "runSteps send (Suc k) r = graphStep send (runSteps send k r)"
  by (induction k arbitrary: r) simp_all

lemma prefix_graphStep: "prefix (messages (state r)) (messages (state (graphStep send r)))"
  by (auto simp: graphStep_def messages_applyUpdate Let_def split: Position.splits sum.splits)

lemma prefix_runSteps: "prefix (messages (state r)) (messages (state (runSteps send n r)))"
proof (induction n arbitrary: r)
  case 0
  show ?case by simp
next
  case (Suc n)
  have "prefix (messages (state r)) (messages (state (graphStep send r)))"
    by (rule prefix_graphStep)
  also have "prefix \<dots> (messages (state (runSteps send n (graphStep send r))))"
    by (rule Suc.IH)
  finally show ?case by simp
qed

text \<open>The bounded run against the unbounded iteration of steps.\<close>

lemma runGraph_Rejected:
  "position (runSteps send n r) = Rejected e \<Longrightarrow> runGraph send (n + m) r = runSteps send n r"
proof (induction n arbitrary: r)
  case 0
  then show ?case by (cases m) simp_all
next
  case (Suc n)
  show ?case
  proof (cases "position r")
    case Model
    with Suc show ?thesis by simp
  next
    case Tools
    with Suc show ?thesis by simp
  next
    case End
    with Suc.prems show ?thesis by (simp add: graphStep_End runSteps_End)
  next
    case (Rejected e')
    then show ?thesis by (simp add: graphStep_Rejected runSteps_Rejected)
  qed
qed

lemma runGraph_End:
  "position (runSteps send n r) = End \<Longrightarrow> runGraph send (n + Suc m) r = runSteps send n r"
proof (induction n arbitrary: r)
  case 0
  then show ?case by simp
next
  case (Suc n)
  show ?case
  proof (cases "position r")
    case Model
    with Suc show ?thesis by simp
  next
    case Tools
    with Suc show ?thesis by simp
  next
    case End
    then show ?thesis by (simp add: graphStep_End runSteps_End)
  next
    case (Rejected e')
    with Suc.prems show ?thesis by (simp add: graphStep_Rejected runSteps_Rejected)
  qed
qed

lemma runGraph_out_of_steps:
  assumes "position (runSteps send n r) = Model \<or> position (runSteps send n r) = Tools"
    and "\<forall>e. position (runSteps send (Suc n) r) \<noteq> Rejected e"
  shows "runGraph send (Suc n) r =
           (runSteps send (Suc n) r)\<lparr>position := Rejected GraphRecursionError\<rparr>"
  using assms
proof (induction n arbitrary: r)
  case 0
  then show ?case by (auto split: Position.splits)
next
  case (Suc n)
  have run: "position r = Model \<or> position r = Tools"
  proof (cases "position r")
    case End
    with Suc.prems(1) show ?thesis by (simp add: graphStep_End runSteps_End)
  next
    case (Rejected e')
    with Suc.prems(1) show ?thesis by (simp add: graphStep_Rejected runSteps_Rejected)
  qed simp_all
  have "runGraph send (Suc n) (graphStep send r) =
          (runSteps send (Suc n) (graphStep send r))\<lparr>position := Rejected GraphRecursionError\<rparr>"
    using Suc.prems by (intro Suc.IH) simp_all
  with run show ?case by auto
qed

lemma invoke_End:
  assumes "runSteps send k (start inputMessages) = r" and "position r = End"
  shows "runGraph send (k + Suc m) (start inputMessages) = r"
    and "invoke send (k + Suc m) inputMessages = Inr (state r)"
proof -
  from assms have "position (runSteps send k (start inputMessages)) = End" by simp
  from runGraph_End [OF this, of m] assms(1)
  show g: "runGraph send (k + Suc m) (start inputMessages) = r" by simp
  show "invoke send (k + Suc m) inputMessages = Inr (state r)"
    unfolding invoke_def g using assms(2) by simp
qed

lemma invoke_Rejected:
  assumes "runSteps send k (start inputMessages) = r" and "position r = Rejected e"
  shows "invoke send (k + m) inputMessages = Inl e"
proof -
  from assms have "position (runSteps send k (start inputMessages)) = Rejected e" by simp
  from runGraph_Rejected [OF this, of m] assms(1)
  have "runGraph send (k + m) (start inputMessages) = r" by simp
  then show ?thesis
    unfolding invoke_def using assms(2) by simp
qed

lemma invoke_out_of_steps:
  assumes "position (runSteps send n (start inputMessages)) = Model \<or>
           position (runSteps send n (start inputMessages)) = Tools"
    and "\<forall>e. position (runSteps send (Suc n) (start inputMessages)) \<noteq> Rejected e"
  shows "invoke send (Suc n) inputMessages = Inl GraphRecursionError"
  unfolding invoke_def runGraph_out_of_steps [OF assms] by simp

lemma prefix_runGraph: "prefix (messages (state r)) (messages (state (runGraph send n r)))"
proof (induction n arbitrary: r)
  case 0
  show ?case by (simp split: Position.splits)
next
  case (Suc n)
  have "prefix (messages (state r)) (messages (state (graphStep send r)))"
    by (rule prefix_graphStep)
  also have "prefix \<dots> (messages (state (runGraph send n (graphStep send r))))"
    by (rule Suc.IH)
  finally show ?case by (simp split: Position.splits)
qed

subsection \<open>The run\<close>

text \<open>
  C2 as stated fails: from \<open>exampleInput\<close> the 13th answer of \<open>searchThenText\<close> holds
  no tool request and the conditional edge leads to \<^verbatim>\<open>__end__\<close>, but that
  answer comes with the 25th node execution, the last that the default recursion limit
  allows, and the run is rejected with \<^verbatim>\<open>GraphRecursionError\<close> instead of
  resolving with that turn.
\<close>

theorem no_tool_request_at_limit_counterexample:
  "position (runSteps searchThenText 24 (start exampleInput)) = Model \<and>
   searchThenText (commandOf (state (runSteps searchThenText 24 (start exampleInput)))) =
     Inr (assistantTurn [TextMember ''It's sunny.'']) \<and>
   toolUsesIn (responseContent (assistantTurn [TextMember ''It's sunny.''])) = [] \<and>
   position (runSteps searchThenText 25 (start exampleInput)) = End \<and>
   invoke searchThenText defaultRecursionLimit exampleInput = Inl GraphRecursionError"
  by code_simp

text \<open>
  C2 (as the code has it). When the model's answer holds no tool request, the step at
  \<^verbatim>\<open>model\<close> appends that answer as the assistant's message and leaves the run at
  \<^verbatim>\<open>__end__\<close>; no later step changes the run, so the gateway is called no more.
  When that step is not the last one that the recursion limit allows, the run ends there
  and \<open>invoke\<close> resolves with the state whose last message is that answer; when it is
  the last one allowed, \<open>invoke\<close> rejects with \<^verbatim>\<open>GraphRecursionError\<close>.
\<close>

theorem no_tool_request_ends_run:
  assumes "position r = Model"
    and "send (commandOf (state r)) = Inr response"
    and "toolUsesIn (responseContent response) = []"
  shows "graphStep send r =
           \<lparr>position = End,
            state = \<lparr>messages = messages (state r) @
                      [\<lparr>role = ''assistant'', content = Some (responseContent response)\<rparr>]\<rparr>,
            sends = sends r + 1\<rparr> \<and>
         (\<forall>n. runSteps send n (graphStep send r) = graphStep send r) \<and>
         (\<forall>k inputMessages recursionLimit.
            runSteps send k (start inputMessages) = r \<and> Suc k < recursionLimit \<longrightarrow>
            runGraph send recursionLimit (start inputMessages) = graphStep send r \<and>
            invoke send recursionLimit inputMessages =
              Inr \<lparr>messages = messages (state r) @
                      [\<lparr>role = ''assistant'', content = Some (responseContent response)\<rparr>]\<rparr>) \<and>
         (\<forall>k inputMessages.
            runSteps send k (start inputMessages) = r \<longrightarrow>
            invoke send (Suc k) inputMessages = Inl GraphRecursionError)"
proof -
  have step: "graphStep send r =
           \<lparr>position = End,
            state = \<lparr>messages = messages (state r) @
                      [\<lparr>role = ''assistant'', content = Some (responseContent response)\<rparr>]\<rparr>,
            sends = sends r + 1\<rparr>"
    using assms by (simp add: graphStep_Model_Inr applyUpdate_def reducer_def)
  then have pos: "position (graphStep send r) = End" by simp
  have stay: "\<forall>n. runSteps send n (graphStep send r) = graphStep send r"
    using pos by (simp add: runSteps_End)
  have inv: "runGraph send recursionLimit (start inputMessages) = graphStep send r \<and>
            invoke send recursionLimit inputMessages =
              Inr \<lparr>messages = messages (state r) @
                      [\<lparr>role = ''assistant'', content = Some (responseContent response)\<rparr>]\<rparr>"
    if "runSteps send k (start inputMessages) = r" and "Suc k < recursionLimit"
    for k inputMessages recursionLimit
  proof -
    have s: "runSteps send (Suc k) (start inputMessages) = graphStep send r"
      by (simp only: runSteps_Suc_end that)
    from that(2) obtain m where m: "recursionLimit = Suc k + Suc m"
      by (metis less_imp_Suc_add add_Suc_right)
    from invoke_End [OF s pos, of m] show ?thesis
      unfolding m by (simp add: step)
  qed
  have lim: "invoke send (Suc k) inputMessages = Inl GraphRecursionError"
    if "runSteps send k (start inputMessages) = r" for k inputMessages
  proof -
    have a: "position (runSteps send k (start inputMessages)) = Model \<or>
             position (runSteps send k (start inputMessages)) = Tools"
      using that assms(1) by simp
    have "runSteps send (Suc k) (start inputMessages) = graphStep send r"
      by (simp only: runSteps_Suc_end that)
    with pos have b: "\<forall>e. position (runSteps send (Suc k) (start inputMessages)) \<noteq> Rejected e"
      by simp
    from a b show ?thesis by (rule invoke_out_of_steps)
  qed
  from step stay inv lim show ?thesis by blast
qed

theorem no_tool_request_ends_run_witness:
  "position (start exampleInput) = Model \<and>
   textOnly (commandOf (state (start exampleInput))) =
     Inr (assistantTurn [TextMember ''It's sunny.'']) \<and>
   toolUsesIn (responseContent (assistantTurn [TextMember ''It's sunny.''])) = [] \<and>
   graphStep textOnly (start exampleInput) = \<lparr>position = End, state = textState, sends = 1\<rparr> \<and>
   runSteps textOnly 3 (graphStep textOnly (start exampleInput)) =
     graphStep textOnly (start exampleInput) \<and>
   runGraph textOnly 25 (start exampleInput) =
     \<lparr>position = End, state = textState, sends = 1\<rparr> \<and>
   invoke textOnly 25 exampleInput = Inr textState \<and>
   invoke textOnly 1 exampleInput = Inl GraphRecursionError"
proof -
  have p: "position (start exampleInput) = Model"
    by (simp add: start_def)
  have s: "textOnly (commandOf (state (start exampleInput))) =
     Inr (assistantTurn [TextMember ''It's sunny.''])"
    by (simp add: textOnly_def)
  have c: "responseContent (assistantTurn [TextMember ''It's sunny.'']) = [TextMember ''It's sunny.'']"
    by (simp add: responseContent_def assistantTurn_def)
  have t: "toolUsesIn (responseContent (assistantTurn [TextMember ''It's sunny.''])) = []"
    by (simp add: c)
  have m: "\<lparr>messages = messages (state (start exampleInput)) @
             [\<lparr>role = ''assistant'',
               content = Some (responseContent (assistantTurn [TextMember ''It's sunny.'']))\<rparr>]\<rparr> =
           textState"
    by (simp add: c start_def applyUpdate_def reducer_def textState_def)
  have r0: "runSteps textOnly 0 (start exampleInput) = start exampleInput"
    by simp
  have l: "Suc 0 < (25::nat)"
    by simp
  note inst = no_tool_request_ends_run
    [where r = "start exampleInput" and send = textOnly
       and response = "assistantTurn [TextMember ''It's sunny.'']", OF p s t, unfolded m]
  from inst have g: "graphStep textOnly (start exampleInput) =
      \<lparr>position = End, state = textState, sends = sends (start exampleInput) + 1\<rparr>"
    by blast
  have "sends (start exampleInput) + 1 = 1"
    by (simp add: start_def)
  with g have g': "graphStep textOnly (start exampleInput) =
      \<lparr>position = End, state = textState, sends = 1\<rparr>"
    by simp
  from inst have st: "runSteps textOnly 3 (graphStep textOnly (start exampleInput)) =
     graphStep textOnly (start exampleInput)"
    by blast
  from inst r0 l have "runGraph textOnly 25 (start exampleInput) =
       graphStep textOnly (start exampleInput) \<and>
     invoke textOnly 25 exampleInput = Inr textState"
    by blast
  with g' have i: "runGraph textOnly 25 (start exampleInput) =
       \<lparr>position = End, state = textState, sends = 1\<rparr>"
     "invoke textOnly 25 exampleInput = Inr textState"
    by simp_all
  from inst r0 have "invoke textOnly (Suc 0) exampleInput = Inl GraphRecursionError"
    by blast
  then have j: "invoke textOnly 1 exampleInput = Inl GraphRecursionError"
    by simp
  from p s t g' st i j show ?thesis by blast
qed

text \<open>
  C5. When the gateway call fails, the step at \<^verbatim>\<open>model\<close> rejects the run with
  that very error after the one call; no later step changes the run (the call is not
  repeated), and \<open>invoke\<close> rejects with the error under every recursion limit that
  lets the call happen.
\<close>

theorem gateway_error_rejects_run:
  assumes "position r = Model"
    and "send (commandOf (state r)) = Inl e"
  shows "graphStep send r = r\<lparr>position := Rejected e, sends := sends r + 1\<rparr> \<and>
         (\<forall>n. runSteps send n (graphStep send r) =
                r\<lparr>position := Rejected e, sends := sends r + 1\<rparr>) \<and>
         (\<forall>k inputMessages m. runSteps send k (start inputMessages) = r \<longrightarrow>
            invoke send (Suc k + m) inputMessages = Inl e)"
proof -
  have step: "graphStep send r = r\<lparr>position := Rejected e, sends := sends r + 1\<rparr>"
    using assms by (rule graphStep_Model_Inl)
  then have pos: "position (graphStep send r) = Rejected e" by simp
  have stay: "\<forall>n. runSteps send n (graphStep send r) =
                r\<lparr>position := Rejected e, sends := sends r + 1\<rparr>"
    using pos step by (simp add: runSteps_Rejected)
  have inv: "invoke send (Suc k + m) inputMessages = Inl e"
    if "runSteps send k (start inputMessages) = r" for k inputMessages m
  proof -
    have "runSteps send (Suc k) (start inputMessages) = graphStep send r"
      by (simp only: runSteps_Suc_end that)
    from invoke_Rejected [OF this pos, of m] show ?thesis .
  qed
  from step stay inv show ?thesis by blast
qed

theorem gateway_error_rejects_run_witness:
  "position (start exampleInput) = Model \<and>
   throttled (commandOf (state (start exampleInput))) = Inl (GatewayError ''ThrottlingException'') \<and>
   graphStep throttled (start exampleInput) =
     \<lparr>position = Rejected (GatewayError ''ThrottlingException''),
      state = \<lparr>messages = exampleInput\<rparr>, sends = 1\<rparr> \<and>
   sends (runSteps throttled 7 (graphStep throttled (start exampleInput))) = 1 \<and>
   invoke throttled 25 exampleInput = Inl (GatewayError ''ThrottlingException'') \<and>
   invoke throttled 1 exampleInput = Inl (GatewayError ''ThrottlingException'')"
proof -
  have p: "position (start exampleInput) = Model"
    by (simp add: start_def)
  have s: "throttled (commandOf (state (start exampleInput))) =
      Inl (GatewayError ''ThrottlingException'')"
    by (simp add: throttled_def)
  have r0: "runSteps throttled 0 (start exampleInput) = start exampleInput"
    by simp
  have u: "(start exampleInput)
             \<lparr>position := Rejected (GatewayError ''ThrottlingException''),
              sends := sends (start exampleInput) + 1\<rparr> =
           \<lparr>position = Rejected (GatewayError ''ThrottlingException''),
            state = \<lparr>messages = exampleInput\<rparr>, sends = 1\<rparr>"
    by (simp add: start_def applyUpdate_def reducer_def)
  note inst = gateway_error_rejects_run
    [where r = "start exampleInput" and send = throttled
       and e = "GatewayError ''ThrottlingException''", OF p s, unfolded u]
  from inst have g: "graphStep throttled (start exampleInput) =
     \<lparr>position = Rejected (GatewayError ''ThrottlingException''),
      state = \<lparr>messages = exampleInput\<rparr>, sends = 1\<rparr>"
    by blast
  from inst have "runSteps throttled 7 (graphStep throttled (start exampleInput)) =
     \<lparr>position = Rejected (GatewayError ''ThrottlingException''),
      state = \<lparr>messages = exampleInput\<rparr>, sends = 1\<rparr>"
    by blast
  then have n: "sends (runSteps throttled 7 (graphStep throttled (start exampleInput))) = 1"
    by simp
  from inst r0 have "invoke throttled (Suc 0 + 24) exampleInput =
      Inl (GatewayError ''ThrottlingException'')"
    by blast
  then have i: "invoke throttled 25 exampleInput = Inl (GatewayError ''ThrottlingException'')"
    by simp
  from inst r0 have "invoke throttled (Suc 0 + 0) exampleInput =
      Inl (GatewayError ''ThrottlingException'')"
    by blast
  then have j: "invoke throttled 1 exampleInput = Inl (GatewayError ''ThrottlingException'')"
    by simp
  from p s g n i j show ?thesis by blast
qed

text \<open>
  C9 as stated fails: from \<open>exampleInput\<close> the 13th response of
  \<open>searchThenNoOutput\<close> has no output message and the conditional edge leads to
  \<^verbatim>\<open>__end__\<close>, but that response comes with the 25th node execution, the last
  that the default recursion limit allows, and the run is rejected with
  \<^verbatim>\<open>GraphRecursionError\<close>: an error is surfaced.
\<close>

theorem absent_output_at_limit_counterexample:
  "position (runSteps searchThenNoOutput 24 (start exampleInput)) = Model \<and>
   searchThenNoOutput (commandOf (state (runSteps searchThenNoOutput 24 (start exampleInput)))) =
     Inr \<lparr>responseOutput = None, stopReason = None\<rparr> \<and>
   outputMessage \<lparr>responseOutput = None, stopReason = None\<rparr> = None \<and>
   position (runSteps searchThenNoOutput 25 (start exampleInput)) = End \<and>
   invoke searchThenNoOutput defaultRecursionLimit exampleInput = Inl GraphRecursionError"
  by code_simp

text \<open>
  C9 (as the code has it). When the response has no output message, the node
  \<^verbatim>\<open>model\<close> does not fail: it appends an assistant message with an empty content
  list and the conditional edge leads to \<^verbatim>\<open>__end__\<close>. When that step is not the
  last one that the recursion limit allows, \<open>invoke\<close> resolves with the state that
  ends with the empty message; when it is the last one allowed, \<open>invoke\<close> rejects with
  \<^verbatim>\<open>GraphRecursionError\<close>.
\<close>

theorem absent_output_message_ends_run:
  assumes "position r = Model"
    and "send (commandOf (state r)) = Inr response"
    and "outputMessage response = None"
  shows "callBedrockModel send (state r) = Inr [\<lparr>role = ''assistant'', content = Some []\<rparr>] \<and>
         graphStep send r =
           \<lparr>position = End,
            state = \<lparr>messages = messages (state r) @
                      [\<lparr>role = ''assistant'', content = Some []\<rparr>]\<rparr>,
            sends = sends r + 1\<rparr> \<and>
         (\<forall>k inputMessages recursionLimit.
            runSteps send k (start inputMessages) = r \<and> Suc k < recursionLimit \<longrightarrow>
            invoke send recursionLimit inputMessages =
              Inr \<lparr>messages = messages (state r) @
                      [\<lparr>role = ''assistant'', content = Some []\<rparr>]\<rparr>) \<and>
         (\<forall>k inputMessages.
            runSteps send k (start inputMessages) = r \<longrightarrow>
            invoke send (Suc k) inputMessages = Inl GraphRecursionError)"
proof -
  have rc: "responseContent response = []"
    using assms(3) by (simp add: responseContent_def outputMessage_def split: option.splits)
  have call: "callBedrockModel send (state r) = Inr [\<lparr>role = ''assistant'', content = Some []\<rparr>]"
    using assms(2) rc by (simp add: callBedrockModel_commandOf)
  have step: "graphStep send r =
           \<lparr>position = End,
            state = \<lparr>messages = messages (state r) @
                      [\<lparr>role = ''assistant'', content = Some []\<rparr>]\<rparr>,
            sends = sends r + 1\<rparr>"
    using assms(1,2) rc by (simp add: graphStep_Model_Inr applyUpdate_def reducer_def)
  then have pos: "position (graphStep send r) = End" by simp
  have inv: "invoke send recursionLimit inputMessages =
              Inr \<lparr>messages = messages (state r) @
                      [\<lparr>role = ''assistant'', content = Some []\<rparr>]\<rparr>"
    if "runSteps send k (start inputMessages) = r" and "Suc k < recursionLimit"
    for k inputMessages recursionLimit
  proof -
    have s: "runSteps send (Suc k) (start inputMessages) = graphStep send r"
      by (simp only: runSteps_Suc_end that)
    from that(2) obtain m where m: "recursionLimit = Suc k + Suc m"
      by (metis less_imp_Suc_add add_Suc_right)
    from invoke_End(2) [OF s pos, of m] show ?thesis
      unfolding m by (simp add: step)
  qed
  have lim: "invoke send (Suc k) inputMessages = Inl GraphRecursionError"
    if "runSteps send k (start inputMessages) = r" for k inputMessages
  proof -
    have a: "position (runSteps send k (start inputMessages)) = Model \<or>
             position (runSteps send k (start inputMessages)) = Tools"
      using that assms(1) by simp
    have "runSteps send (Suc k) (start inputMessages) = graphStep send r"
      by (simp only: runSteps_Suc_end that)
    with pos have b: "\<forall>e. position (runSteps send (Suc k) (start inputMessages)) \<noteq> Rejected e"
      by simp
    from a b show ?thesis by (rule invoke_out_of_steps)
  qed
  from call step inv lim show ?thesis by blast
qed

theorem absent_output_message_ends_run_witness:
  "position (start exampleInput) = Model \<and>
   noOutput (commandOf (state (start exampleInput))) =
     Inr \<lparr>responseOutput = None, stopReason = None\<rparr> \<and>
   outputMessage \<lparr>responseOutput = None, stopReason = None\<rparr> = None \<and>
   callBedrockModel noOutput (state (start exampleInput)) =
     Inr [\<lparr>role = ''assistant'', content = Some []\<rparr>] \<and>
   invoke noOutput 25 exampleInput =
     Inr \<lparr>messages = exampleInput @ [\<lparr>role = ''assistant'', content = Some []\<rparr>]\<rparr> \<and>
   invoke noOutput 1 exampleInput = Inl GraphRecursionError"
proof -
  have p: "position (start exampleInput) = Model"
    by (simp add: start_def)
  have s: "noOutput (commandOf (state (start exampleInput))) =
     Inr \<lparr>responseOutput = None, stopReason = None\<rparr>"
    by (simp add: noOutput_def)
  have a: "outputMessage \<lparr>responseOutput = None, stopReason = None\<rparr> = None"
    by (simp add: outputMessage_def)
  have m: "messages (state (start exampleInput)) = exampleInput"
    by (simp add: start_def applyUpdate_def reducer_def)
  have r0: "runSteps noOutput 0 (start exampleInput) = start exampleInput"
    by simp
  have l: "Suc 0 < (25::nat)"
    by simp
  note inst = absent_output_message_ends_run
    [where r = "start exampleInput" and send = noOutput
       and response = "\<lparr>responseOutput = None, stopReason = None\<rparr>", OF p s a, unfolded m]
  from inst have c: "callBedrockModel noOutput (state (start exampleInput)) =
     Inr [\<lparr>role = ''assistant'', content = Some []\<rparr>]"
    by blast
  from inst r0 l have i: "invoke noOutput 25 exampleInput =
     Inr \<lparr>messages = exampleInput @ [\<lparr>role = ''assistant'', content = Some []\<rparr>]\<rparr>"
    by blast
  from inst r0 have "invoke noOutput (Suc 0) exampleInput = Inl GraphRecursionError"
    by blast
  then have j: "invoke noOutput 1 exampleInput = Inl GraphRecursionError"
    by simp
  from p s a c i j show ?thesis by blast
qed

text \<open>
  C7. The reducer, every step of the graph, every sequence of steps and every bounded
  run keep the previous messages as a prefix of the new ones.
\<close>

theorem messages_only_appended:
  "prefix a (reducer a b) \<and>
   prefix (messages (state r)) (messages (state (graphStep send r))) \<and>
   prefix (messages (state r)) (messages (state (runSteps send n r))) \<and>
   prefix (messages (state r)) (messages (state (runGraph send n r)))"
  by (simp add: reducer_def prefix_graphStep prefix_runSteps prefix_runGraph)

theorem messages_only_appended_witness:
  "prefix exampleInput (reducer exampleInput [searchResults]) \<and>
   prefix exampleInput (messages (state (graphStep alwaysSearch (start exampleInput)))) \<and>
   prefix exampleInput (messages (state (runSteps alwaysSearch 4 (start exampleInput)))) \<and>
   prefix exampleInput (messages (state (runGraph alwaysSearch 4 (start exampleInput))))"
proof -
  have m: "messages (state (start exampleInput)) = exampleInput"
    by (simp add: start_def applyUpdate_def reducer_def)
  from messages_only_appended
    [where a = exampleInput and b = "[searchResults]" and r = "start exampleInput"
       and send = alwaysSearch and n = 4]
  show ?thesis unfolding m .
qed

text \<open>
  C8. When the most recent message holds no tool request, the node \<^verbatim>\<open>tools\<close>
  throws \<^verbatim>\<open>Error("No tool calls found in message.")\<close>: the run is rejected and
  stays rejected, and no message is returned.
\<close>

theorem no_tool_request_aborts_tools_node:
  assumes "position r = Tools"
    and "messages (state r) \<noteq> []"
    and "requests (state r) = []"
  shows "executeTools (state r) = Inl (JsError ''No tool calls found in message.'') \<and>
         graphStep send r = r\<lparr>position := Rejected (JsError ''No tool calls found in message.'')\<rparr> \<and>
         (\<forall>n. runSteps send n (graphStep send r) =
                r\<lparr>position := Rejected (JsError ''No tool calls found in message.'')\<rparr>)"
proof -
  from assms(2) obtain lm where lm: "lastMessage (state r) = Some lm"
    by (simp add: lastMessage_def)
  have ex: "executeTools (state r) = Inl (JsError ''No tool calls found in message.'')"
    using lm assms(3) by (simp add: executeTools_def toolUseBlocksOf_requests)
  have step: "graphStep send r = r\<lparr>position := Rejected (JsError ''No tool calls found in message.'')\<rparr>"
    using assms(1) ex by (simp add: graphStep_Tools)
  then have "position (graphStep send r) = Rejected (JsError ''No tool calls found in message.'')"
    by simp
  then have "\<forall>n. runSteps send n (graphStep send r) = graphStep send r"
    by (simp add: runSteps_Rejected)
  with ex step show ?thesis by simp
qed

theorem no_tool_request_aborts_tools_node_witness:
  "messages textState \<noteq> [] \<and> requests textState = [] \<and>
   executeTools textState = Inl (JsError ''No tool calls found in message.'') \<and>
   graphStep textOnly \<lparr>position = Tools, state = textState, sends = 1\<rparr> =
     \<lparr>position = Rejected (JsError ''No tool calls found in message.''),
      state = textState, sends = 1\<rparr> \<and>
   runSteps textOnly 5 (graphStep textOnly \<lparr>position = Tools, state = textState, sends = 1\<rparr>) =
     \<lparr>position = Rejected (JsError ''No tool calls found in message.''),
      state = textState, sends = 1\<rparr>"
proof -
  have p: "position \<lparr>position = Tools, state = textState, sends = 1\<rparr> = Tools"
    by simp
  have m: "messages (state \<lparr>position = Tools, state = textState, sends = 1\<rparr>) \<noteq> []"
    by (simp add: textState_def)
  have q: "requests (state \<lparr>position = Tools, state = textState, sends = 1\<rparr>) = []"
    by (simp add: textState_def requests_def lastMessage_def)
  have u: "\<lparr>position = Tools, state = textState, sends = 1\<rparr>
             \<lparr>position := Rejected (JsError ''No tool calls found in message.'')\<rparr> =
           \<lparr>position = Rejected (JsError ''No tool calls found in message.''),
            state = textState, sends = 1\<rparr>"
    by simp
  have s: "state \<lparr>position = Tools, state = textState, sends = 1\<rparr> = textState"
    by simp
  note inst = no_tool_request_aborts_tools_node
    [where r = "\<lparr>position = Tools, state = textState, sends = 1\<rparr>" and send = textOnly,
     OF p m q, unfolded u s]
  from inst have a: "executeTools textState = Inl (JsError ''No tool calls found in message.'')"
    by blast
  from inst have b: "graphStep textOnly \<lparr>position = Tools, state = textState, sends = 1\<rparr> =
     \<lparr>position = Rejected (JsError ''No tool calls found in message.''),
      state = textState, sends = 1\<rparr>"
    by blast
  from inst have c:
    "runSteps textOnly 5 (graphStep textOnly \<lparr>position = Tools, state = textState, sends = 1\<rparr>) =
     \<lparr>position = Rejected (JsError ''No tool calls found in message.''),
      state = textState, sends = 1\<rparr>"
    by blast
  from m q have "messages textState \<noteq> []" and "requests textState = []"
    by simp_all
  with a b c show ?thesis by blast
qed

text \<open>
  C4 as stated fails: the message that the tool-execution step returns for the request
  of \<open>searchState\<close> has the role \<^verbatim>\<open>user\<close>, not \<^verbatim>\<open>tool-result\<close>.
\<close>

theorem executeTools_role_counterexample:
  "executeTools searchState = Inr [searchResults] \<and>
   role searchResults = ''user'' \<and>
   role searchResults \<noteq> ''tool-result''"
proof -
  have "executeTools searchState = Inr [searchResults]"
    by code_simp
  then show ?thesis by (simp add: searchResults_def)
qed

text \<open>
  C4 (as the code has it). Every message that the tool-execution step returns has the
  role \<^verbatim>\<open>user\<close>.
\<close>

theorem executeTools_role_user:
  "executeTools st = Inr upd \<Longrightarrow> \<exists>rs. upd = [\<lparr>role = ''user'', content = Some rs\<rparr>]"
  by (auto simp: executeTools_Inr)

theorem executeTools_role_user_witness:
  "executeTools searchState = Inr [searchResults] \<and>
   (\<exists>rs. [searchResults] = [\<lparr>role = ''user'', content = Some rs\<rparr>])"
proof -
  have e: "executeTools searchState = Inr [searchResults]"
    by code_simp
  from executeTools_role_user [OF e] e show ?thesis by blast
qed

text \<open>
  C3 as stated fails: the turn \<open>malformedTurn\<close> holds a request for the unknown tool
  \<^verbatim>\<open>lookup\<close>, yet the tool-execution step throws a TypeError at the search
  request that follows it, and the run is rejected instead of going back to
  \<^verbatim>\<open>model\<close>.
\<close>

theorem unknown_tool_aborts_with_malformed_search_counterexample:
  "requests malformedSearch =
     [\<lparr>toolUseId = Some ''a'', name = Some ''lookup'', input = None\<rparr>,
      \<lparr>toolUseId = Some ''b'', name = Some ''search'', input = Some (DObject [])\<rparr>] \<and>
   executeTools malformedSearch = Inl TypeError \<and>
   runSteps malformedGateway 1 (start exampleInput) =
     \<lparr>position = Tools, state = malformedSearch, sends = 1\<rparr> \<and>
   runSteps malformedGateway 2 (start exampleInput) =
     \<lparr>position = Rejected TypeError, state = malformedSearch, sends = 1\<rparr> \<and>
   invoke malformedGateway defaultRecursionLimit exampleInput = Inl TypeError"
  by code_simp

text \<open>
  C3 (as the code has it). When the last message holds a request for a name other than
  \<^verbatim>\<open>search\<close>, and every request of that message is well formed, the
  tool-execution step answers that request with a result block of its id and the text
  \<^verbatim>\<open>Unknown tool: <name>\<close>, and the run goes back to \<^verbatim>\<open>model\<close> with the
  result message appended.
\<close>

theorem unknown_tool_answered_in_band:
  assumes "position r = Tools"
    and "i < length (requests (state r))"
    and "name (requests (state r) ! i) \<noteq> Some ''search''"
    and "list_all wellFormedRequest (requests (state r))"
  shows "\<exists>rs. executeTools (state r) = Inr [\<lparr>role = ''user'', content = Some rs\<rparr>] \<and>
              length rs = length (requests (state r)) \<and>
              rs ! i = ToolResultMember
                \<lparr>resultToolUseId = toolUseId (requests (state r) ! i),
                 toolResultContent =
                   [ResultText (''Unknown tool: '' @ nameText (name (requests (state r) ! i)))]\<rparr> \<and>
              graphStep send r =
                r\<lparr>position := Model,
                  state := \<lparr>messages = messages (state r) @
                             [\<lparr>role = ''user'', content = Some rs\<rparr>]\<rparr>\<rparr>"
proof -
  from assms(2) have ne: "requests (state r) \<noteq> []" by auto
  from executeTools_total [OF ne assms(4)] obtain upd where u: "executeTools (state r) = Inr upd"
    by blast
  then obtain rs where upd: "upd = [\<lparr>role = ''user'', content = Some rs\<rparr>]"
    and rs: "list_all2 answers (requests (state r)) rs"
    by (auto simp: executeTools_Inr)
  have len: "length rs = length (requests (state r))"
    using rs by (simp add: list_all2_lengthD)
  have "answers (requests (state r) ! i) (rs ! i)"
    using list_all2_nthD [OF rs assms(2)] .
  then have ri: "rs ! i = ToolResultMember
                \<lparr>resultToolUseId = toolUseId (requests (state r) ! i),
                 toolResultContent =
                   [ResultText (''Unknown tool: '' @ nameText (name (requests (state r) ! i)))]\<rparr>"
    using assms(3) by (simp add: answers_iff resultContentOf_def resultBlockFor_def)
  have step: "graphStep send r =
                r\<lparr>position := Model,
                  state := \<lparr>messages = messages (state r) @
                             [\<lparr>role = ''user'', content = Some rs\<rparr>]\<rparr>\<rparr>"
    using assms(1) u upd by (simp add: graphStep_Tools applyUpdate_def reducer_def)
  from u upd len ri step show ?thesis by blast
qed

theorem unknown_tool_answered_in_band_witness:
  "position \<lparr>position = Tools, state = twoRequests, sends = 1\<rparr> = Tools \<and>
   0 < length (requests twoRequests) \<and>
   name (requests twoRequests ! 0) = Some ''lookup'' \<and>
   name (requests twoRequests ! 0) \<noteq> Some ''search'' \<and>
   list_all wellFormedRequest (requests twoRequests) \<and>
   (\<exists>rs. executeTools twoRequests = Inr [\<lparr>role = ''user'', content = Some rs\<rparr>] \<and>
         length rs = 2 \<and>
         rs ! 0 = ToolResultMember
           \<lparr>resultToolUseId = Some ''a'',
            toolResultContent = [ResultText ''Unknown tool: lookup'']\<rparr> \<and>
         graphStep textOnly \<lparr>position = Tools, state = twoRequests, sends = 1\<rparr> =
           \<lparr>position = Model,
            state = \<lparr>messages = messages twoRequests @ [\<lparr>role = ''user'', content = Some rs\<rparr>]\<rparr>,
            sends = 1\<rparr>)"
proof -
  have p: "position \<lparr>position = Tools, state = twoRequests, sends = 1\<rparr> = Tools"
    by simp
  have l: "0 < length (requests (state \<lparr>position = Tools, state = twoRequests, sends = 1\<rparr>))"
    by (simp add: requests_twoRequests)
  have n: "name (requests (state \<lparr>position = Tools, state = twoRequests, sends = 1\<rparr>) ! 0)
             \<noteq> Some ''search''"
    by (simp add: requests_twoRequests)
  have w: "list_all wellFormedRequest
             (requests (state \<lparr>position = Tools, state = twoRequests, sends = 1\<rparr>))"
    by (simp add: requests_twoRequests wellFormedRequest_def)
  from unknown_tool_answered_in_band
    [where r = "\<lparr>position = Tools, state = twoRequests, sends = 1\<rparr>" and i = 0
       and send = textOnly, OF p l n w]
  obtain rs where
    "executeTools twoRequests = Inr [\<lparr>role = ''user'', content = Some rs\<rparr>]"
    "length rs = 2"
    "rs ! 0 = ToolResultMember
           \<lparr>resultToolUseId = Some ''a'',
            toolResultContent = [ResultText ''Unknown tool: lookup'']\<rparr>"
    "graphStep textOnly \<lparr>position = Tools, state = twoRequests, sends = 1\<rparr> =
           \<lparr>position = Model,
            state = \<lparr>messages = messages twoRequests @ [\<lparr>role = ''user'', content = Some rs\<rparr>]\<rparr>,
            sends = 1\<rparr>"
    by (auto simp: requests_twoRequests nameText_def)
  with p l n w show ?thesis
    by (auto simp: requests_twoRequests)
qed

subsection \<open>Cycles\<close>

lemma cycle_model:
  assumes "\<forall>cmd. \<exists>response. send cmd = Inr response \<and>
              toolUsesIn (responseContent response) \<noteq> [] \<and>
              list_all wellFormedRequest (toolUsesIn (responseContent response))"
    and "position r = Model"
  shows "position (graphStep send r) = Tools \<and>
         sends (graphStep send r) = sends r + 1 \<and>
         length (messages (state (graphStep send r))) = length (messages (state r)) + 1 \<and>
         requests (state (graphStep send r)) \<noteq> [] \<and>
         list_all wellFormedRequest (requests (state (graphStep send r)))"
proof -
  from assms(1) obtain response where
    r: "send (commandOf (state r)) = Inr response"
    and ne: "toolUsesIn (responseContent response) \<noteq> []"
    and wf: "list_all wellFormedRequest (toolUsesIn (responseContent response))"
    by blast
  have "graphStep send r =
     \<lparr>position = (if toolUsesIn (responseContent response) = [] then End else Tools),
      state = applyUpdate (state r)
                [\<lparr>role = ''assistant'', content = Some (responseContent response)\<rparr>],
      sends = sends r + 1\<rparr>"
    using assms(2) r by (rule graphStep_Model_Inr)
  then show ?thesis
    using ne wf
    by (simp add: messages_applyUpdate requests_def lastMessage_applyUpdate)
qed

lemma cycle_tools:
  assumes "position r = Tools"
    and "requests (state r) \<noteq> []"
    and "list_all wellFormedRequest (requests (state r))"
  shows "position (graphStep send r) = Model \<and>
         sends (graphStep send r) = sends r \<and>
         length (messages (state (graphStep send r))) = length (messages (state r)) + 1"
proof -
  from executeTools_total [OF assms(2,3)] obtain upd where u: "executeTools (state r) = Inr upd"
    by blast
  then obtain rs where "upd = [\<lparr>role = ''user'', content = Some rs\<rparr>]"
    by (auto simp: executeTools_Inr)
  with u assms(1) show ?thesis
    by (simp add: graphStep_Tools messages_applyUpdate)
qed

lemma cycles:
  assumes "\<forall>cmd. \<exists>response. send cmd = Inr response \<and>
              toolUsesIn (responseContent response) \<noteq> [] \<and>
              list_all wellFormedRequest (toolUsesIn (responseContent response))"
    and "position r = Model"
  shows "position (runSteps send (2 * k) r) = Model \<and>
         sends (runSteps send (2 * k) r) = sends r + k \<and>
         length (messages (state (runSteps send (2 * k) r))) = length (messages (state r)) + 2 * k"
proof (induction k)
  case 0
  show ?case using assms(2) by simp
next
  case (Suc k)
  let ?a = "runSteps send (2 * k) r"
  let ?b = "graphStep send ?a"
  let ?c = "graphStep send ?b"
  have eq: "runSteps send (2 * Suc k) r = ?c"
    by (simp only: mult_Suc_right add_2_eq_Suc runSteps_Suc_end)
  from Suc.IH have pa: "position ?a = Model" by simp
  note m = cycle_model [OF assms(1) pa]
  from m have pb: "position ?b = Tools" and nb: "requests (state ?b) \<noteq> []"
    and wb: "list_all wellFormedRequest (requests (state ?b))" by simp_all
  note t = cycle_tools [OF pb nb wb, of send]
  show ?case
    unfolding eq using Suc.IH m t by simp
qed

lemma steps_of_requesting_gateway:
  assumes "\<forall>cmd. \<exists>response. send cmd = Inr response \<and>
              toolUsesIn (responseContent response) \<noteq> [] \<and>
              list_all wellFormedRequest (toolUsesIn (responseContent response))"
  shows "position (runSteps send n (start inputMessages)) = (if even n then Model else Tools) \<and>
         sends (runSteps send n (start inputMessages)) = (n + 1) div 2 \<and>
         length (messages (state (runSteps send n (start inputMessages)))) =
           length inputMessages + n"
proof -
  have ps: "position (start inputMessages) = Model"
    by (simp add: start_def)
  have ev: "position (runSteps send (2 * j) (start inputMessages)) = Model \<and>
         sends (runSteps send (2 * j) (start inputMessages)) = j \<and>
         length (messages (state (runSteps send (2 * j) (start inputMessages)))) =
           length inputMessages + 2 * j" for j
    using cycles [OF assms ps, of j] by (simp add: start_def messages_applyUpdate)
  show ?thesis
  proof (cases "even n")
    case True
    then obtain j where "n = 2 * j" by (auto elim: evenE)
    with ev [of j] show ?thesis by simp
  next
    case False
    then obtain j where n: "n = 2 * j + 1" by (auto elim: oddE)
    have "runSteps send (2 * j + 1) (start inputMessages) =
          graphStep send (runSteps send (2 * j) (start inputMessages))"
      by (simp only: Suc_eq_plus1 [symmetric] runSteps_Suc_end)
    with cycle_model [OF assms, of "runSteps send (2 * j) (start inputMessages)"] ev [of j]
    show ?thesis unfolding n by simp
  qed
qed

text \<open>
  C6 as stated fails: the only bound that a caller can give is the recursion limit, and
  it counts node executions, not cycles. With the gateway \<open>alwaysSearch\<close>, which asks
  for a tool on every call, a bound of 4 ends the run after 2 gateway calls and 2 tool
  executions, and the default bound of 25 after 13 gateway calls and 12 tool executions;
  the error is \<^verbatim>\<open>GraphRecursionError\<close>.
\<close>

theorem turn_bound_counterexample:
  "invoke alwaysSearch 4 exampleInput = Inl GraphRecursionError \<and>
   sends (runGraph alwaysSearch 4 (start exampleInput)) = 2 \<and>
   length (messages (state (runGraph alwaysSearch 4 (start exampleInput)))) = 5 \<and>
   invoke alwaysSearch defaultRecursionLimit exampleInput = Inl GraphRecursionError \<and>
   sends (runGraph alwaysSearch defaultRecursionLimit (start exampleInput)) = 13 \<and>
   length (messages (state (runGraph alwaysSearch defaultRecursionLimit (start exampleInput)))) = 26"
  by code_simp

text \<open>
  C6 (as the code has it). For every recursion limit n of at least 1 and every gateway
  that on every call answers with at least one tool request, all of them well formed,
  the run is rejected with \<^verbatim>\<open>GraphRecursionError\<close> after exactly n node
  executions: until then it alternates between \<^verbatim>\<open>model\<close> and
  \<^verbatim>\<open>tools\<close>, and at its end it has called the gateway (n + 1) div 2 times and
  appended n messages.
\<close>

theorem recursion_limit_bounds_run:
  assumes "\<forall>cmd. \<exists>response. send cmd = Inr response \<and>
              toolUsesIn (responseContent response) \<noteq> [] \<and>
              list_all wellFormedRequest (toolUsesIn (responseContent response))"
    and "0 < recursionLimit"
  shows "invoke send recursionLimit inputMessages = Inl GraphRecursionError \<and>
         (\<forall>n < recursionLimit.
            position (runSteps send n (start inputMessages)) = (if even n then Model else Tools)) \<and>
         runGraph send recursionLimit (start inputMessages) =
           (runSteps send recursionLimit (start inputMessages))
             \<lparr>position := Rejected GraphRecursionError\<rparr> \<and>
         sends (runGraph send recursionLimit (start inputMessages)) = (recursionLimit + 1) div 2 \<and>
         length (messages (state (runGraph send recursionLimit (start inputMessages)))) =
           length inputMessages + recursionLimit"
proof -
  note st = steps_of_requesting_gateway [OF assms(1), of _ inputMessages]
  from assms(2) obtain n where n: "recursionLimit = Suc n"
    by (cases recursionLimit) simp_all
  have a: "position (runSteps send n (start inputMessages)) = Model \<or>
           position (runSteps send n (start inputMessages)) = Tools"
    using st [of n] by simp
  have b: "\<forall>e. position (runSteps send (Suc n) (start inputMessages)) \<noteq> Rejected e"
    using st [of "Suc n"] by simp
  have g: "runGraph send recursionLimit (start inputMessages) =
           (runSteps send recursionLimit (start inputMessages))
             \<lparr>position := Rejected GraphRecursionError\<rparr>"
    unfolding n using a b by (rule runGraph_out_of_steps)
  have i: "invoke send recursionLimit inputMessages = Inl GraphRecursionError"
    unfolding n using a b by (rule invoke_out_of_steps)
  have s: "sends (runGraph send recursionLimit (start inputMessages)) = (recursionLimit + 1) div 2"
    unfolding g using st [of recursionLimit] by simp
  have l: "length (messages (state (runGraph send recursionLimit (start inputMessages)))) =
           length inputMessages + recursionLimit"
    unfolding g using st [of recursionLimit] by simp
  from i g s l st show ?thesis by blast
qed

theorem recursion_limit_bounds_run_witness:
  "(\<forall>cmd. \<exists>response. alwaysSearch cmd = Inr response \<and>
      toolUsesIn (responseContent response) \<noteq> [] \<and>
      list_all wellFormedRequest (toolUsesIn (responseContent response))) \<and>
   0 < defaultRecursionLimit \<and>
   invoke alwaysSearch defaultRecursionLimit exampleInput = Inl GraphRecursionError \<and>
   position (runSteps alwaysSearch 24 (start exampleInput)) = Model \<and>
   sends (runGraph alwaysSearch defaultRecursionLimit (start exampleInput)) = 13 \<and>
   length (messages (state (runGraph alwaysSearch defaultRecursionLimit (start exampleInput)))) = 26"
proof -
  have h: "\<forall>cmd. \<exists>response. alwaysSearch cmd = Inr response \<and>
      toolUsesIn (responseContent response) \<noteq> [] \<and>
      list_all wellFormedRequest (toolUsesIn (responseContent response))"
    by (simp add: alwaysSearch_def assistantTurn_def responseContent_def searchRequest_def
          wellFormedRequest_def)
  have p: "0 < defaultRecursionLimit"
    by (simp add: defaultRecursionLimit_def)
  note inst = recursion_limit_bounds_run [OF h p, of exampleInput]
  from inst have i: "invoke alwaysSearch defaultRecursionLimit exampleInput = Inl GraphRecursionError"
    by blast
  have "(24::nat) < defaultRecursionLimit"
    by (simp add: defaultRecursionLimit_def)
  with inst have "position (runSteps alwaysSearch 24 (start exampleInput)) =
      (if even (24::nat) then Model else Tools)"
    by blast
  then have q: "position (runSteps alwaysSearch 24 (start exampleInput)) = Model"
    by simp
  from inst have "sends (runGraph alwaysSearch defaultRecursionLimit (start exampleInput)) =
      (defaultRecursionLimit + 1) div 2"
    by blast
  then have s: "sends (runGraph alwaysSearch defaultRecursionLimit (start exampleInput)) = 13"
    by (simp add: defaultRecursionLimit_def)
  from inst have "length (messages (state (runGraph alwaysSearch defaultRecursionLimit
        (start exampleInput)))) = length exampleInput + defaultRecursionLimit"
    by blast
  then have l: "length (messages (state (runGraph alwaysSearch defaultRecursionLimit
        (start exampleInput)))) = 26"
    by (simp add: defaultRecursionLimit_def exampleInput_def)
  from h p i q s l show ?thesis by blast
qed

end
